theory Spec2Isabelle
  imports Main "HOL-Library.Word"
begin

section \<open>JavaScript values and the hash of a query key\<close>

text \<open>
  \<^verbatim>\<open>QueryClient.getQuery\<close> and \<^verbatim>\<open>createQuery\<close> compute the hash of a query as
  \<^verbatim>\<open>JSON.stringify(queryKey)\<close>. The key is an array of arbitrary values
  (\<^verbatim>\<open>unknown[]\<close>), so the values that can occur are modelled as a datatype.

  An object graph is represented by the tree that the serializer walks: a shared object is
  written out at each place it occurs, and a member that refers back to an array or
  object enclosing it is \<open>JAncestor n\<close> (the container \<open>n\<close> levels up). Every cycle
  that a traversal from the root can meet has this form. \<open>JNumber\<close> holds the
  integers from \<open>- 2\<^sup>5\<^sup>3\<close> to \<open>2\<^sup>5\<^sup>3 - 1\<close>, as a signed word of 54 bits: each of
  them is a JavaScript number, and JavaScript prints it in full. The other numbers
  (fractions, larger integers) are left out. Objects list their own enumerable string-keyed properties in
  the order the engine enumerates them; \<^verbatim>\<open>toJSON\<close> methods and accessors are left out.
  \<open>JFunction\<close> and \<open>JSymbol\<close> carry the identity of the function or symbol.
\<close>

datatype jsval =
    JUndefined
  | JNull
  | JBool bool
  | JNumber "54 word"
  | JNaN
  | JInfinity bool
  | JBigInt int
  | JString string
  | JSymbol nat
  | JFunction nat
  | JArray "jsval list"
  | JObject "(string \<times> jsval) list"
  | JAncestor nat

text \<open>The exception \<^verbatim>\<open>JSON.stringify\<close> throws on a BigInt and on a cyclic structure.\<close>

datatype error = TypeError

fun decimal :: "nat \<Rightarrow> string" where
  "decimal n =
     (if n < 10 then [char_of (48 + n)]
      else decimal (n div 10) @ [char_of (48 + n mod 10)])"

declare decimal.simps [simp del]

definition NumberToString :: "54 word \<Rightarrow> string" where
  "NumberToString n =
     (if sint n < 0 then CHR ''-'' # decimal (nat (- sint n)) else decimal (nat (sint n)))"

definition hexDigit :: "nat \<Rightarrow> char" where
  "hexDigit d = (if d < 10 then char_of (48 + d) else char_of (87 + d))"

text \<open>
  \<^verbatim>\<open>QuoteJSONString\<close>: the two-character escapes, \<^verbatim>\<open>\u00XX\<close> for the other control
  characters, every other character as it is.
\<close>

definition escapeChar :: "char \<Rightarrow> string" where
  "escapeChar c =
     (let n = (of_char c :: nat) in
      if n = 8 then [CHR 0x5C, CHR ''b'']
      else if n = 9 then [CHR 0x5C, CHR ''t'']
      else if n = 10 then [CHR 0x5C, CHR ''n'']
      else if n = 12 then [CHR 0x5C, CHR ''f'']
      else if n = 13 then [CHR 0x5C, CHR ''r'']
      else if n = 34 then [CHR 0x5C, CHR 0x22]
      else if n = 92 then [CHR 0x5C, CHR 0x5C]
      else if n < 32 then
        [CHR 0x5C, CHR ''u'', CHR ''0'', CHR ''0'', hexDigit (n div 16), hexDigit (n mod 16)]
      else [c])"

definition QuoteJSONString :: "string \<Rightarrow> string" where
  "QuoteJSONString s = CHR 0x22 # concat (map escapeChar s) @ [CHR 0x22]"

fun commaJoin :: "string list \<Rightarrow> string" where
  "commaJoin [] = []"
| "commaJoin [s] = s"
| "commaJoin (s # t # ss) = s @ CHR '','' # commaJoin (t # ss)"

text \<open>
  \<^verbatim>\<open>SerializeJSONProperty\<close> gives \<open>None\<close> where JavaScript gives \<^verbatim>\<open>undefined\<close>
  (for \<^verbatim>\<open>undefined\<close>, functions and symbols): such a member of an array is written
  \<^verbatim>\<open>null\<close>, such a property of an object is left out.
\<close>

fun SerializeJSONProperty :: "jsval \<Rightarrow> error + string option"
  and SerializeJSONArray :: "jsval list \<Rightarrow> error + string list"
  and SerializeJSONObject :: "(string \<times> jsval) list \<Rightarrow> error + string list"
where
  "SerializeJSONProperty JUndefined = Inr None"
| "SerializeJSONProperty JNull = Inr (Some ''null'')"
| "SerializeJSONProperty (JBool b) = Inr (Some (if b then ''true'' else ''false''))"
| "SerializeJSONProperty (JNumber n) = Inr (Some (NumberToString n))"
| "SerializeJSONProperty JNaN = Inr (Some ''null'')"
| "SerializeJSONProperty (JInfinity _) = Inr (Some ''null'')"
| "SerializeJSONProperty (JBigInt _) = Inl TypeError"
| "SerializeJSONProperty (JString s) = Inr (Some (QuoteJSONString s))"
| "SerializeJSONProperty (JSymbol _) = Inr None"
| "SerializeJSONProperty (JFunction _) = Inr None"
| "SerializeJSONProperty (JArray xs) =
     (case SerializeJSONArray xs of
        Inl e \<Rightarrow> Inl e
      | Inr ss \<Rightarrow> Inr (Some (CHR ''['' # commaJoin ss @ '']'')))"
| "SerializeJSONProperty (JObject ps) =
     (case SerializeJSONObject ps of
        Inl e \<Rightarrow> Inl e
      | Inr ss \<Rightarrow> Inr (Some (CHR ''{'' # commaJoin ss @ ''}'')))"
| "SerializeJSONProperty (JAncestor _) = Inl TypeError"
| "SerializeJSONArray [] = Inr []"
| "SerializeJSONArray (x # xs) =
     (case SerializeJSONProperty x of
        Inl e \<Rightarrow> Inl e
      | Inr r \<Rightarrow>
          (case SerializeJSONArray xs of
             Inl e \<Rightarrow> Inl e
           | Inr ss \<Rightarrow> Inr ((case r of None \<Rightarrow> ''null'' | Some s \<Rightarrow> s) # ss)))"
| "SerializeJSONObject [] = Inr []"
| "SerializeJSONObject ((k, v) # ps) =
     (case SerializeJSONProperty v of
        Inl e \<Rightarrow> Inl e
      | Inr r \<Rightarrow>
          (case SerializeJSONObject ps of
             Inl e \<Rightarrow> Inl e
           | Inr ss \<Rightarrow>
               Inr ((case r of None \<Rightarrow> [] | Some s \<Rightarrow> [QuoteJSONString k @ CHR '':'' # s])
                    @ ss)))"

text \<open>\<^verbatim>\<open>JSON.stringify\<close> of an array with the given elements.\<close>

definition JSON_stringify :: "jsval list \<Rightarrow> error + string" where
  "JSON_stringify elems =
     (case SerializeJSONArray elems of
        Inl e \<Rightarrow> Inl e
      | Inr ss \<Rightarrow> Inr (CHR ''['' # commaJoin ss @ '']''))"

text \<open>
  The values on which the serializer throws: those in which the traversal meets a BigInt
  or a reference back to an enclosing container.
\<close>

fun cyclic :: "jsval \<Rightarrow> bool"
  and cyclicElems :: "jsval list \<Rightarrow> bool"
  and cyclicProps :: "(string \<times> jsval) list \<Rightarrow> bool"
where
  "cyclic (JAncestor _) = True"
| "cyclic (JArray xs) = cyclicElems xs"
| "cyclic (JObject ps) = cyclicProps ps"
| "cyclic _ = False"
| "cyclicElems [] = False"
| "cyclicElems (x # xs) = (cyclic x \<or> cyclicElems xs)"
| "cyclicProps [] = False"
| "cyclicProps ((k, v) # ps) = (cyclic v \<or> cyclicProps ps)"

fun hasBigInt :: "jsval \<Rightarrow> bool"
  and hasBigIntElems :: "jsval list \<Rightarrow> bool"
  and hasBigIntProps :: "(string \<times> jsval) list \<Rightarrow> bool"
where
  "hasBigInt (JBigInt _) = True"
| "hasBigInt (JArray xs) = hasBigIntElems xs"
| "hasBigInt (JObject ps) = hasBigIntProps ps"
| "hasBigInt _ = False"
| "hasBigIntElems [] = False"
| "hasBigIntElems (x # xs) = (hasBigInt x \<or> hasBigIntElems xs)"
| "hasBigIntProps [] = False"
| "hasBigIntProps ((k, v) # ps) = (hasBigInt v \<or> hasBigIntProps ps)"

section \<open>Queries, their state and the client\<close>

datatype status = Loading | Error | Success

text \<open>
  The type \<^verbatim>\<open>QueryState\<close>. A value that a query function delivers or throws is an
  \<open>'v option\<close>: \<open>None\<close> is \<^verbatim>\<open>undefined\<close>, \<open>Some v\<close> is any other value.
  \<open>data\<close> and \<open>error\<close> hold such a value: the \<^verbatim>\<open>undefined\<close> they are created
  with and reset to, or what a fetch stored, which is \<^verbatim>\<open>undefined\<close> again when that
  is what the query function delivered or threw.
\<close>

record 'v QueryState =
  status :: status
  isFetching :: bool
  data :: "'v option"
  error :: "'v option"

text \<open>\<open>'f\<close> is the type of query functions; one is known by its identity only.\<close>

record 'f QueryOptions =
  queryKey :: "jsval list"
  queryFn :: 'f

text \<open>
  The type \<^verbatim>\<open>Query\<close>. Its methods \<^verbatim>\<open>fetch\<close>, \<^verbatim>\<open>setState\<close> and
  \<^verbatim>\<open>subsribe\<close> are the functions below; \<open>queryFn\<close>, which the closure of
  \<^verbatim>\<open>fetch\<close> captures, is kept as a field. A promise is named by a number, an
  observer by a number: both are compared by identity in the source.
\<close>

record ('f, 'v) Query = "'f QueryOptions" +
  queryHash :: string
  promise :: "nat option"
  state :: "'v QueryState"
  subscribers :: "nat list"

text \<open>
  The class \<^verbatim>\<open>QueryClient\<close>. Queries are only ever pushed onto \<open>queries\<close>, so the
  position of a query in the list serves as the reference to the object.
\<close>

record ('f, 'v) QueryClient =
  queries :: "('f, 'v) Query list"

text \<open>
  What a query does to the world outside it: it calls an observer's \<^verbatim>\<open>notify\<close>, or
  it calls its query function.
\<close>

datatype 'f effect = Notify nat | Invoke 'f

text \<open>How a statement ends: normally, or by throwing a value.\<close>

datatype 'x completion = Normal | Throw 'x

text \<open>\<^verbatim>\<open>subsribe\<close> pushes the subscriber and returns the closure \<open>unsubscribe\<close>.\<close>

definition subsribe :: "nat \<Rightarrow> ('f, 'v) Query \<Rightarrow> ('f, 'v) Query" where
  "subsribe subscriber query =
     query\<lparr>subscribers := subscribers query @ [subscriber]\<rparr>"

definition unsubscribe :: "nat \<Rightarrow> ('f, 'v) Query \<Rightarrow> ('f, 'v) Query" where
  "unsubscribe subscriber query =
     query\<lparr>subscribers := filter (\<lambda>sub. sub \<noteq> subscriber) (subscribers query)\<rparr>"

text \<open>A \<^verbatim>\<open>try\<close> statement with a \<^verbatim>\<open>catch\<close> and a \<^verbatim>\<open>finally\<close> clause.\<close>

definition tryCatchFinally ::
  "('c \<Rightarrow> 'c \<times> 'x completion) \<Rightarrow> ('x \<Rightarrow> 'c \<Rightarrow> 'c \<times> 'x completion) \<Rightarrow>
   ('c \<Rightarrow> 'c \<times> 'x completion) \<Rightarrow> 'c \<Rightarrow> 'c \<times> 'x completion" where
  "tryCatchFinally body handler final c =
     (let (c1, r1) = body c;
          (c2, r2) = (case r1 of Normal \<Rightarrow> (c1, Normal) | Throw x \<Rightarrow> handler x c1);
          (c3, r3) = final c2
      in (c3, case r3 of Normal \<Rightarrow> r2 | Throw y \<Rightarrow> Throw y))"

text \<open>
  What \<^verbatim>\<open>await queryFn()\<close> produces once the function has returned: the value the
  returned promise is fulfilled with, or the exception thrown at the \<^verbatim>\<open>await\<close>
  when it is rejected.
\<close>

datatype 'x outcome = Fulfilled 'x | Rejected 'x

text \<open>
  \<^verbatim>\<open>createQuery\<close>. It serializes the key again, so it has the serializer's failure as
  a branch.
\<close>

definition createQuery :: "'f QueryOptions \<Rightarrow> error + ('f, 'v) Query" where
  "createQuery options =
     (case JSON_stringify (queryKey options) of
        Inl e \<Rightarrow> Inl e
      | Inr h \<Rightarrow>
          Inr \<lparr>queryKey = queryKey options, queryFn = queryFn options,
               queryHash = h, promise = None,
               state = \<lparr>status = Loading, isFetching = True, data = None, error = None\<rparr>,
               subscribers = []\<rparr>)"

text \<open>\<^verbatim>\<open>Array.prototype.find\<close>, returning the reference of the element found.\<close>

primrec findRef :: "('a \<Rightarrow> bool) \<Rightarrow> 'a list \<Rightarrow> nat option" where
  "findRef P [] = None"
| "findRef P (x # xs) = (if P x then Some 0 else map_option Suc (findRef P xs))"

text \<open>
  \<^verbatim>\<open>QueryClient.getQuery\<close>: the reference of the query, or the exception thrown,
  together with the client afterwards.
\<close>

definition getQuery ::
  "('f, 'v) QueryClient \<Rightarrow> 'f QueryOptions \<Rightarrow> (error + nat) \<times> ('f, 'v) QueryClient" where
  "getQuery c options =
     (case JSON_stringify (queryKey options) of
        Inl e \<Rightarrow> (Inl e, c)
      | Inr h \<Rightarrow>
          (case findRef (\<lambda>d. queryHash d = h) (queries c) of
             Some r \<Rightarrow> (Inr r, c)
           | None \<Rightarrow>
               (case createQuery options of
                  Inl e \<Rightarrow> (Inl e, c)
                | Inr query \<Rightarrow>
                    (Inr (length (queries c)), c\<lparr>queries := queries c @ [query]\<rparr>))))"

section \<open>The client and its asynchronous operations\<close>

text \<open>
  The state of a program that uses one client: the client, the async blocks of
  \<^verbatim>\<open>fetch\<close> that are suspended at their \<^verbatim>\<open>await\<close> (each with the promise it
  returned and the query that started it), the promises of the blocks that have finished
  (\<open>Normal\<close> for fulfilled, \<open>Throw x\<close> for rejected with \<open>x\<close>), the number of
  the next promise to be created, and the effects so far, each with the query that
  produced it.
\<close>

record ('f, 'v) world =
  client :: "('f, 'v) QueryClient"
  awaiting :: "(nat \<times> nat) list"
  settled :: "(nat \<times> 'v option completion) list"
  nextPromise :: nat
  log :: "(nat \<times> 'f effect) list"

definition newWorld :: "('f, 'v) world" where
  "newWorld = \<lparr>client = \<lparr>queries = []\<rparr>, awaiting = [], settled = [], nextPromise = 0, log = []\<rparr>"

definition store :: "nat \<Rightarrow> ('f, 'v) Query \<Rightarrow> ('f, 'v) world \<Rightarrow> ('f, 'v) QueryClient" where
  "store i query w = (client w)\<lparr>queries := (queries (client w))[i := query]\<rparr>"

text \<open>
  What an observer's \<^verbatim>\<open>notify\<close> does when it is called is code of the program that
  uses the cache: a function on the world, which returns normally. It may call the
  operations of this section, \<^verbatim>\<open>fetch\<close> on the notifying query among them. The
  callbacks of the calls of \<^verbatim>\<open>notify\<close> to come are given as a list, in the order in
  which the calls happen; when the list is used up, the observers notified after that
  return at once. With the empty list every observer returns at once.
\<close>

type_synonym ('f, 'v) callback = "('f, 'v) world \<Rightarrow> ('f, 'v) world"

text \<open>
  \<^verbatim>\<open>query.subscribers.forEach((sub) => sub.notify())\<close> over the array as it is
  when the loop starts: an element pushed during the loop is not visited, and
  \<open>unsubscribe\<close> puts a new array in place of the one the loop walks.
\<close>

primrec forEachNotify ::
  "nat \<Rightarrow> nat list \<Rightarrow> ('f, 'v) callback list \<Rightarrow> ('f, 'v) world \<Rightarrow> ('f, 'v) world" where
  "forEachNotify i [] cbs w = w"
| "forEachNotify i (sub # subs) cbs w =
     forEachNotify i subs (tl cbs)
       ((case cbs of [] \<Rightarrow> id | cb # rest \<Rightarrow> cb) (w\<lparr>log := log w @ [(i, Notify sub)]\<rparr>))"

text \<open>
  \<^verbatim>\<open>setState\<close> of query \<open>i\<close>: \<^verbatim>\<open>query.state = updater(query.state)\<close>, then the
  loop over the subscribers. It returns the callbacks that are left.
\<close>

definition setState ::
  "nat \<Rightarrow> ('v QueryState \<Rightarrow> 'v QueryState) \<Rightarrow>
   ('f, 'v) world \<times> ('f, 'v) callback list \<Rightarrow> ('f, 'v) world \<times> ('f, 'v) callback list" where
  "setState i updater =
     (\<lambda>(w, cbs).
        let query = queries (client w) ! i;
            w1 = w\<lparr>client := store i (query\<lparr>state := updater (state query)\<rparr>) w\<rparr>;
            subs = subscribers (queries (client w1) ! i)
        in (forEachNotify i subs cbs w1, drop (length subs) cbs))"

text \<open>
  The \<^verbatim>\<open>try\<close> statement of \<^verbatim>\<open>fetch\<close> on query \<open>i\<close>, from the point where the
  expression \<^verbatim>\<open>await queryFn()\<close> has produced \<open>res\<close>.
\<close>

definition afterAwait ::
  "nat \<Rightarrow> 'v option outcome \<Rightarrow> ('f, 'v) world \<times> ('f, 'v) callback list \<Rightarrow>
   (('f, 'v) world \<times> ('f, 'v) callback list) \<times> 'v option completion" where
  "afterAwait i res =
     tryCatchFinally
       (\<lambda>c. case res of
               Rejected err \<Rightarrow> (c, Throw err)
             | Fulfilled dat \<Rightarrow>
                 (setState i (\<lambda>old. old\<lparr>status := Success, data := dat\<rparr>) c, Normal))
       (\<lambda>err c. (setState i (\<lambda>old. old\<lparr>status := Error, error := err\<rparr>) c, Normal))
       (\<lambda>(w, cbs).
           (setState i (\<lambda>old. old\<lparr>isFetching := False\<rparr>)
              (w\<lparr>client := store i ((queries (client w) ! i)\<lparr>promise := None\<rparr>) w\<rparr>, cbs),
            Normal))"

text \<open>
  What a call of the query function does: it throws before it returns, or it returns
  (a promise, or any other value) and the \<^verbatim>\<open>await\<close> suspends the block.
\<close>

datatype 'x call = Throws 'x | Returns

text \<open>
  \<^verbatim>\<open>fetch\<close> on the query with reference \<open>i\<close>; \<open>r\<close> is what the query function
  does if it is called, \<open>cbs\<close> are the callbacks of the observers notified during the
  call. The call of the async block creates its promise \<open>p\<close> and runs the block up to
  its first \<^verbatim>\<open>await\<close>: the first \<^verbatim>\<open>setState\<close> with its notifications, then the
  call of the query function. Only when the call of the block has returned is \<open>p\<close>
  assigned to \<^verbatim>\<open>query.promise\<close>; the observers notified before that see the field
  still empty. A reference that the client never handed out denotes no query: nothing
  happens.
\<close>

definition fetch ::
  "nat \<Rightarrow> 'v option call \<Rightarrow> ('f, 'v) callback list \<Rightarrow> ('f, 'v) world \<Rightarrow>
   nat option \<times> ('f, 'v) world" where
  "fetch i r cbs w =
     (if i < length (queries (client w)) then
        (case promise (queries (client w) ! i) of
           Some p \<Rightarrow> (Some p, w)
         | None \<Rightarrow>
             (let p = nextPromise w;
                  (w1, cbs1) =
                     setState i (\<lambda>old. old\<lparr>isFetching := True, error := None\<rparr>)
                       (w\<lparr>nextPromise := Suc p\<rparr>, cbs);
                  w2 = w1\<lparr>log := log w1 @ [(i, Invoke (queryFn (queries (client w1) ! i)))]\<rparr>
              in case r of
                   Returns \<Rightarrow>
                     (Some p,
                      w2\<lparr>client := store i ((queries (client w2) ! i)\<lparr>promise := Some p\<rparr>) w2,
                         awaiting := awaiting w2 @ [(p, i)]\<rparr>)
                 | Throws x \<Rightarrow>
                     (let ((w3, cbs3), res) = afterAwait i (Rejected x) (w2, cbs1)
                      in (Some p,
                          w3\<lparr>client := store i ((queries (client w3) ! i)\<lparr>promise := Some p\<rparr>) w3,
                             settled := settled w3 @ [(p, res)]\<rparr>))))
      else (None, w))"

text \<open>
  The block that returned promise \<open>p\<close> is resumed: the promise it awaits has settled
  with \<open>res\<close>. Nothing happens if no block with that promise is suspended.
\<close>

definition resume ::
  "nat \<Rightarrow> 'v option outcome \<Rightarrow> ('f, 'v) callback list \<Rightarrow> ('f, 'v) world \<Rightarrow> ('f, 'v) world" where
  "resume p res cbs w =
     (case map_of (awaiting w) p of
        None \<Rightarrow> w
      | Some i \<Rightarrow>
          (if i < length (queries (client w)) then
             (let ((w1, cbs1), r) =
                    afterAwait i res
                      (w\<lparr>awaiting := filter (\<lambda>(p', j). p' \<noteq> p) (awaiting w)\<rparr>, cbs)
              in w1\<lparr>settled := settled w1 @ [(p, r)]\<rparr>)
           else w))"

text \<open>
  \<^verbatim>\<open>query.setState(updater)\<close> called from outside, \<^verbatim>\<open>query.subsribe(o)\<close> and the
  closure it returns.
\<close>

definition mutate ::
  "nat \<Rightarrow> ('v QueryState \<Rightarrow> 'v QueryState) \<Rightarrow> ('f, 'v) callback list \<Rightarrow> ('f, 'v) world \<Rightarrow>
   ('f, 'v) world" where
  "mutate i updater cbs w =
     (if i < length (queries (client w)) then fst (setState i updater (w, cbs)) else w)"

definition subscribeTo :: "nat \<Rightarrow> nat \<Rightarrow> ('f, 'v) world \<Rightarrow> ('f, 'v) world" where
  "subscribeTo i ob w =
     (if i < length (queries (client w)) then
        w\<lparr>client := store i (subsribe ob (queries (client w) ! i)) w\<rparr>
      else w)"

definition unsubscribeFrom :: "nat \<Rightarrow> nat \<Rightarrow> ('f, 'v) world \<Rightarrow> ('f, 'v) world" where
  "unsubscribeFrom i ob w =
     (if i < length (queries (client w)) then
        w\<lparr>client := store i (unsubscribe ob (queries (client w) ! i)) w\<rparr>
      else w)"

text \<open>
  The \<^verbatim>\<open>subscribe\<close> method of the observer made by \<^verbatim>\<open>createQueryObserver\<close>:
  \<^verbatim>\<open>query.subsribe(observer)\<close>, then \<^verbatim>\<open>query.fetch()\<close>.
\<close>

definition observerSubscribe ::
  "nat \<Rightarrow> nat \<Rightarrow> 'v option call \<Rightarrow> ('f, 'v) callback list \<Rightarrow> ('f, 'v) world \<Rightarrow>
   ('f, 'v) world" where
  "observerSubscribe i ob r cbs w = snd (fetch i r cbs (subscribeTo i ob w))"

text \<open>
  The operations a program performs on the client and its queries, and the settling of
  a promise a block waits for, in a program whose observers return from \<^verbatim>\<open>notify\<close>
  without calling into the cache (as \<^verbatim>\<open>useQuery\<close> makes them: its callback asks
  React for a new render). A run is a sequence of these events, in the order they happen:
  JavaScript runs each of them to its end before the next one starts. \<^verbatim>\<open>setState\<close>
  with an updater of the caller's choice is not among them; the source calls it from
  \<^verbatim>\<open>fetch\<close> only.
\<close>

datatype ('f, 'v) event =
    GetQuery "'f QueryOptions"
  | Fetch nat "'v option call"
  | Settle nat "'v option outcome"
  | Subscribe nat nat
  | Unsubscribe nat nat
  | Attach nat nat "'v option call"

fun step :: "('f, 'v) event \<Rightarrow> ('f, 'v) world \<Rightarrow> ('f, 'v) world" where
  "step (GetQuery options) w = w\<lparr>client := snd (getQuery (client w) options)\<rparr>"
| "step (Fetch i r) w = snd (fetch i r [] w)"
| "step (Settle p res) w = resume p res [] w"
| "step (Subscribe i ob) w = subscribeTo i ob w"
| "step (Unsubscribe i ob) w = unsubscribeFrom i ob w"
| "step (Attach i ob r) w = observerSubscribe i ob r [] w"

definition run :: "('f, 'v) event list \<Rightarrow> ('f, 'v) world \<Rightarrow> ('f, 'v) world" where
  "run es w = fold step es w"



text \<open>The calls of the query function made by query \<open>i\<close>, and its suspended blocks.\<close>

definition invocations :: "nat \<Rightarrow> (nat \<times> 'f effect) list \<Rightarrow> nat" where
  "invocations i l = length (filter (\<lambda>(j, e). j = i \<and> (case e of Invoke f \<Rightarrow> True | Notify ob \<Rightarrow> False)) l)"

definition inFlight :: "nat \<Rightarrow> ('f, 'v) world \<Rightarrow> nat list" where
  "inFlight i w = map fst (filter (\<lambda>(p, j). j = i) (awaiting w))"

text \<open>
  The effects that the step from \<open>w\<close> to \<open>w'\<close> added to the log.
\<close>

definition notified :: "('f, 'v) world \<Rightarrow> ('f, 'v) world \<Rightarrow> (nat \<times> 'f effect) list" where
  "notified w w' = drop (length (log w)) (log w')"

section \<open>Invariants of the reachable worlds\<close>

text \<open>
  These hold in every world that a run reaches, that is, with observers that return
  without calling into the cache. Every suspended block has its own promise, belongs to
  a query of the client, and its promise is the one stored in that query's
  \<^verbatim>\<open>promise\<close> field.
\<close>

definition wellFormed :: "('f, 'v) world \<Rightarrow> bool" where
  "wellFormed w =
     (distinct (map fst (awaiting w)) \<and>
      (\<forall>(p, i) \<in> set (awaiting w).
          i < length (queries (client w)) \<and> promise (queries (client w) ! i) = Some p \<and>
          p < nextPromise w))"



text \<open>No async block has ended by throwing: no promise returned by \<^verbatim>\<open>fetch\<close> is rejected.\<close>

definition noRejection :: "('f, 'v) world \<Rightarrow> bool" where
  "noRejection w = (\<forall>(p, r) \<in> set (settled w). r = Normal)"

text \<open>
  While a fetch of query \<open>i\<close> is under way: the promise \<open>p\<close> is stored in the query
  and \<open>n\<close> calls of its query function are logged.
\<close>

definition busy :: "nat \<Rightarrow> nat \<Rightarrow> nat \<Rightarrow> ('f, 'v) world \<Rightarrow> bool" where
  "busy i p n w =
     (i < length (queries (client w)) \<and> promise (queries (client w) ! i) = Some p \<and>
      invocations i (log w) = n)"

text \<open>
  A query function is stored when some query of the client holds it, and invoked when the
  log has a call of it; it is quiet when neither is the case.
\<close>

definition stored :: "'f \<Rightarrow> ('f, 'v) world \<Rightarrow> bool" where
  "stored f w = (f \<in> queryFn ` set (queries (client w)))"

definition invoked :: "'f \<Rightarrow> ('f, 'v) world \<Rightarrow> bool" where
  "invoked f w = (\<exists>j. (j, Invoke f) \<in> set (log w))"


section \<open>Serialization and lookup\<close>

lemma ser_fails:
  "isl (SerializeJSONProperty v) = (cyclic v \<or> hasBigInt v)"
  "isl (SerializeJSONArray xs) = (cyclicElems xs \<or> hasBigIntElems xs)"
  "isl (SerializeJSONObject ps) = (cyclicProps ps \<or> hasBigIntProps ps)"
  by (induction v and xs and ps rule: SerializeJSONProperty_SerializeJSONArray_SerializeJSONObject.induct)
     (auto split: sum.splits)

lemma error_unique: "(x :: error) = y"
  by (cases x, cases y) simp

lemma JSON_stringify_fails:
  "(JSON_stringify k = Inl e) = (cyclicElems k \<or> hasBigIntElems k)"
  using ser_fails(2) [of k] error_unique [of _ e]
  by (auto simp: JSON_stringify_def split: sum.splits)

lemma getQuery_Inl:
  "JSON_stringify (queryKey options) = Inl e \<Longrightarrow> getQuery c options = (Inl e, c)"
  by (simp add: getQuery_def)

lemma findRef_Some:
  "findRef P xs = Some r \<Longrightarrow> r < length xs \<and> P (xs ! r) \<and> (\<forall>j<r. \<not> P (xs ! j))"
proof (induction xs arbitrary: r)
  case Nil
  then show ?case by simp
next
  case (Cons x xs)
  then show ?case
    by (auto split: if_splits simp: nth_Cons split: nat.splits)
qed

lemma findRef_None: "(findRef P xs = None) = (\<forall>x\<in>set xs. \<not> P x)"
  by (induction xs) auto


lemma getQuery_Inr:
  assumes "JSON_stringify (queryKey options) = Inr h"
  shows "getQuery c options =
     (case findRef (\<lambda>d. queryHash d = h) (queries c) of
        Some r \<Rightarrow> (Inr r, c)
      | None \<Rightarrow> (Inr (length (queries c)),
           c\<lparr>queries := queries c @
             [\<lparr>queryKey = queryKey options, queryFn = queryFn options,
               queryHash = h, promise = None,
               state = \<lparr>status = Loading, isFetching = True, data = None, error = None\<rparr>,
               subscribers = []\<rparr>]\<rparr>))"
  using assms by (simp add: getQuery_def createQuery_def split: option.splits)


section \<open>The operations, case by case\<close>

lemma queries_store [simp]: "queries (store i q w) = (queries (client w))[i := q]"
  by (simp add: store_def)

lemma store_same: "i < length (queries (client w)) \<Longrightarrow> store i (queries (client w) ! i) w = client w"
  by (simp add: store_def)

lemma store_fields [simp]:
  "store i q (w\<lparr>awaiting := a\<rparr>) = store i q w"
  "store i q (w\<lparr>settled := s\<rparr>) = store i q w"
  "store i q (w\<lparr>nextPromise := n\<rparr>) = store i q w"
  "store i q (w\<lparr>log := l\<rparr>) = store i q w"
  by (simp_all add: store_def)

lemma store_store [simp]:
  "store i q' (w\<lparr>client := store i q w\<rparr>) = store i q' w"
  by (simp add: store_def)

text \<open>With observers that return at once, a broadcast only adds to the log.\<close>

lemma forEachNotify_Nil:
  "forEachNotify i subs [] w = w\<lparr>log := log w @ map (\<lambda>ob. (i, Notify ob)) subs\<rparr>"
  by (induction subs arbitrary: w) simp_all

lemma setState_Nil:
  assumes "i < length (queries (client w))"
  shows "setState i u (w, []) =
     (w\<lparr>client := store i ((queries (client w) ! i)\<lparr>state := u (state (queries (client w) ! i))\<rparr>) w,
        log := log w @ map (\<lambda>ob. (i, Notify ob)) (subscribers (queries (client w) ! i))\<rparr>, [])"
  using assms by (simp add: setState_def Let_def forEachNotify_Nil)

lemma afterAwait_Fulfilled:
  assumes "i < length (queries (client w))"
  shows "afterAwait i (Fulfilled d) (w, []) =
     ((w\<lparr>client := store i ((queries (client w) ! i)
            \<lparr>promise := None,
             state := (state (queries (client w) ! i))
                \<lparr>status := Success, data := d, isFetching := False\<rparr>\<rparr>) w,
         log := log w @ map (\<lambda>ob. (i, Notify ob)) (subscribers (queries (client w) ! i))
                @ map (\<lambda>ob. (i, Notify ob)) (subscribers (queries (client w) ! i))\<rparr>, []), Normal)"
  using assms by (simp add: afterAwait_def tryCatchFinally_def setState_Nil)

lemma afterAwait_Rejected:
  assumes "i < length (queries (client w))"
  shows "afterAwait i (Rejected e) (w, []) =
     ((w\<lparr>client := store i ((queries (client w) ! i)
            \<lparr>promise := None,
             state := (state (queries (client w) ! i))
                \<lparr>status := Error, error := e, isFetching := False\<rparr>\<rparr>) w,
         log := log w @ map (\<lambda>ob. (i, Notify ob)) (subscribers (queries (client w) ! i))
                @ map (\<lambda>ob. (i, Notify ob)) (subscribers (queries (client w) ! i))\<rparr>, []), Normal)"
  using assms by (simp add: afterAwait_def tryCatchFinally_def setState_Nil)

lemma fetch_busy:
  "i < length (queries (client w)) \<Longrightarrow> promise (queries (client w) ! i) = Some p \<Longrightarrow>
   fetch i r cbs w = (Some p, w)"
  by (simp add: fetch_def)

lemma fetch_Returns:
  assumes "i < length (queries (client w))" "promise (queries (client w) ! i) = None"
  shows "fetch i Returns [] w =
    (Some (nextPromise w),
     w\<lparr>client := store i ((queries (client w) ! i)
            \<lparr>state := (state (queries (client w) ! i))\<lparr>isFetching := True, error := None\<rparr>,
             promise := Some (nextPromise w)\<rparr>) w,
       awaiting := awaiting w @ [(nextPromise w, i)],
       nextPromise := Suc (nextPromise w),
       log := log w @ map (Pair i) (map Notify (subscribers (queries (client w) ! i))
                @ [Invoke (queryFn (queries (client w) ! i))])\<rparr>)"
  using assms by (simp add: fetch_def Let_def setState_Nil comp_def)

lemma fetch_Throws:
  assumes "i < length (queries (client w))" "promise (queries (client w) ! i) = None"
  shows "fetch i (Throws x) [] w =
    (Some (nextPromise w),
     w\<lparr>client := store i ((queries (client w) ! i)
            \<lparr>state := (state (queries (client w) ! i))
                \<lparr>status := Error, error := x, isFetching := False\<rparr>,
             promise := Some (nextPromise w)\<rparr>) w,
       settled := settled w @ [(nextPromise w, Normal)],
       nextPromise := Suc (nextPromise w),
       log := log w @ map (Pair i) (map Notify (subscribers (queries (client w) ! i))
                @ [Invoke (queryFn (queries (client w) ! i))]
                @ map Notify (subscribers (queries (client w) ! i))
                @ map Notify (subscribers (queries (client w) ! i)))\<rparr>)"
  using assms by (simp add: fetch_def Let_def setState_Nil afterAwait_Rejected comp_def)

lemma resume_idle: "map_of (awaiting w) p = None \<Longrightarrow> resume p res cbs w = w"
  by (simp add: resume_def)

lemma resume_Fulfilled:
  assumes "map_of (awaiting w) p = Some i" "i < length (queries (client w))"
  shows "resume p (Fulfilled d) [] w =
     w\<lparr>client := store i ((queries (client w) ! i)
            \<lparr>promise := None,
             state := (state (queries (client w) ! i))
                \<lparr>status := Success, data := d, isFetching := False\<rparr>\<rparr>) w,
       awaiting := filter (\<lambda>(p', j). p' \<noteq> p) (awaiting w),
       settled := settled w @ [(p, Normal)],
       log := log w @ map (Pair i) (map Notify (subscribers (queries (client w) ! i))
                @ map Notify (subscribers (queries (client w) ! i)))\<rparr>"
  using assms by (simp add: resume_def afterAwait_Fulfilled comp_def)

lemma resume_Rejected:
  assumes "map_of (awaiting w) p = Some i" "i < length (queries (client w))"
  shows "resume p (Rejected e) [] w =
     w\<lparr>client := store i ((queries (client w) ! i)
            \<lparr>promise := None,
             state := (state (queries (client w) ! i))
                \<lparr>status := Error, error := e, isFetching := False\<rparr>\<rparr>) w,
       awaiting := filter (\<lambda>(p', j). p' \<noteq> p) (awaiting w),
       settled := settled w @ [(p, Normal)],
       log := log w @ map (Pair i) (map Notify (subscribers (queries (client w) ! i))
                @ map Notify (subscribers (queries (client w) ! i)))\<rparr>"
  using assms by (simp add: resume_def afterAwait_Rejected comp_def)

section \<open>Well-formedness is preserved\<close>

lemma getQuery_queries:
  "\<exists>qs. queries (snd (getQuery c options)) = queries c @ qs \<and>
        (\<forall>q \<in> set qs. promise q = None \<and> status (state q) = Loading \<and> queryFn q = queryFn options)"
  by (auto simp: getQuery_def createQuery_def split: sum.splits option.splits)

lemma wellFormedI:
  assumes "distinct (map fst (awaiting w))"
    and "\<And>p j. (p, j) \<in> set (awaiting w) \<Longrightarrow>
           j < length (queries (client w)) \<and> promise (queries (client w) ! j) = Some p \<and>
           p < nextPromise w"
  shows "wellFormed w"
  using assms unfolding wellFormed_def by blast

lemma wellFormedD:
  assumes "wellFormed w" "(p, i) \<in> set (awaiting w)"
  shows "promise (queries (client w) ! i) = Some p" "i < length (queries (client w))"
        "p < nextPromise w"
  using assms unfolding wellFormed_def by blast+

lemma wellFormed_distinct: "wellFormed w \<Longrightarrow> distinct (map fst (awaiting w))"
  by (simp add: wellFormed_def)

lemma wellFormed_getQuery:
  assumes "wellFormed w"
  shows "wellFormed (w\<lparr>client := snd (getQuery (client w) options)\<rparr>)"
proof -
  obtain qs where qs: "queries (snd (getQuery (client w) options)) = queries (client w) @ qs"
    using getQuery_queries by blast
  show ?thesis
  proof (rule wellFormedI)
    show "distinct (map fst (awaiting (w\<lparr>client := snd (getQuery (client w) options)\<rparr>)))"
      using wellFormed_distinct [OF assms] by simp
  next
    fix p j
    assume "(p, j) \<in> set (awaiting (w\<lparr>client := snd (getQuery (client w) options)\<rparr>))"
    then have mem: "(p, j) \<in> set (awaiting w)" by simp
    show "j < length (queries (client (w\<lparr>client := snd (getQuery (client w) options)\<rparr>))) \<and>
          promise (queries (client (w\<lparr>client := snd (getQuery (client w) options)\<rparr>)) ! j) = Some p \<and>
          p < nextPromise (w\<lparr>client := snd (getQuery (client w) options)\<rparr>)"
      using wellFormedD [OF assms mem] by (simp add: qs nth_append)
  qed
qed

lemma wellFormed_update:
  assumes "wellFormed w" "promise q = promise (queries (client w) ! i)"
  shows "wellFormed (w\<lparr>client := store i q w\<rparr>)"
proof (rule wellFormedI)
  show "distinct (map fst (awaiting (w\<lparr>client := store i q w\<rparr>)))"
    using wellFormed_distinct [OF assms(1)] by simp
next
  fix p j
  assume "(p, j) \<in> set (awaiting (w\<lparr>client := store i q w\<rparr>))"
  then have mem: "(p, j) \<in> set (awaiting w)" by simp
  show "j < length (queries (client (w\<lparr>client := store i q w\<rparr>))) \<and>
        promise (queries (client (w\<lparr>client := store i q w\<rparr>)) ! j) = Some p \<and>
        p < nextPromise (w\<lparr>client := store i q w\<rparr>)"
    using wellFormedD [OF assms(1) mem] assms(2) by (cases "i = j") simp_all
qed

lemma wellFormed_fetch:
  assumes "wellFormed w"
  shows "wellFormed (snd (fetch i r [] w))"
proof (cases "i < length (queries (client w))")
  case False
  with assms show ?thesis by (simp add: fetch_def)
next
  case len: True
  show ?thesis
  proof (cases "promise (queries (client w) ! i)")
    case (Some p)
    with len assms show ?thesis by (simp add: fetch_busy)
  next
    case None
    have other: "j \<noteq> i" if "(p, j) \<in> set (awaiting w)" for p j
      using wellFormedD(1) [OF assms that] None by auto
    have fresh: "nextPromise w \<notin> fst ` set (awaiting w)"
      using wellFormedD(3) [OF assms] by fastforce
    show ?thesis
    proof (cases r)
      case Returns
      show ?thesis
        unfolding Returns fetch_Returns [OF len None] snd_conv
      proof (rule wellFormedI, goal_cases)
        case 1
        show ?case using wellFormed_distinct [OF assms] fresh by simp
      next
        case (2 p j)
        then consider "(p, j) \<in> set (awaiting w)" | "p = nextPromise w" "j = i"
          by auto
        then show ?case
        proof cases
          case 1
          with wellFormedD [OF assms 1] other [OF 1] show ?thesis
            by (simp add: nth_list_update)
        next
          case 2
          with len show ?thesis by simp
        qed
      qed
    next
      case (Throws x)
      show ?thesis
        unfolding Throws fetch_Throws [OF len None] snd_conv
      proof (rule wellFormedI, goal_cases)
        case 1
        show ?case using wellFormed_distinct [OF assms] by simp
      next
        case (2 p j)
        then have mem: "(p, j) \<in> set (awaiting w)" by simp
        with wellFormedD [OF assms mem] other [OF mem] show ?case
          by (simp add: nth_list_update)
      qed
    qed
  qed
qed

lemma map_of_awaiting:
  assumes "wellFormed w"
  shows "(map_of (awaiting w) p = Some i) = ((p, i) \<in> set (awaiting w))"
  using wellFormed_distinct [OF assms] by simp

lemma wellFormed_resume:
  assumes "wellFormed w"
  shows "wellFormed (resume p res [] w)"
proof (cases "map_of (awaiting w) p")
  case None
  with assms show ?thesis by (simp add: resume_idle)
next
  case (Some i)
  then have mem: "(p, i) \<in> set (awaiting w)"
    using assms by (simp add: map_of_awaiting)
  note facts = wellFormedD [OF assms mem]
  have other: "j \<noteq> i" if "(p', j) \<in> set (awaiting w)" "p' \<noteq> p" for p' j
    using wellFormedD(1) [OF assms that(1)] facts(1) that(2) by auto
  have d: "distinct (map fst (filter (\<lambda>(p', j). p' \<noteq> p) (awaiting w)))"
    using wellFormed_distinct [OF assms] by (simp add: distinct_map_filter)
  have rest: "wellFormed (w\<lparr>client := store i q w,
       awaiting := filter (\<lambda>(p', j). p' \<noteq> p) (awaiting w), settled := s, log := l\<rparr>)"
    for q s l
  proof (rule wellFormedI, goal_cases)
    case 1
    show ?case using d by simp
  next
    case (2 p' j)
    then have m: "(p', j) \<in> set (awaiting w)" and ne: "p' \<noteq> p" by auto
    with wellFormedD [OF assms m] other [OF m ne] show ?case
      by (simp add: nth_list_update)
  qed
  show ?thesis
  proof (cases res)
    case (Fulfilled v)
    show ?thesis
      unfolding Fulfilled resume_Fulfilled [OF Some facts(2)] by (rule rest)
  next
    case (Rejected e)
    show ?thesis
      unfolding Rejected resume_Rejected [OF Some facts(2)] by (rule rest)
  qed
qed

lemma wellFormed_subscribeTo: "wellFormed w \<Longrightarrow> wellFormed (subscribeTo i ob w)"
  by (simp add: subscribeTo_def subsribe_def wellFormed_update)

lemma wellFormed_unsubscribeFrom: "wellFormed w \<Longrightarrow> wellFormed (unsubscribeFrom i ob w)"
  by (simp add: unsubscribeFrom_def unsubscribe_def wellFormed_update)

lemma wellFormed_step: "wellFormed w \<Longrightarrow> wellFormed (step e w)"
  by (cases e)
     (simp_all add: wellFormed_getQuery wellFormed_fetch wellFormed_resume
        wellFormed_subscribeTo wellFormed_unsubscribeFrom observerSubscribe_def)

lemma run_Nil [simp]: "run [] w = w"
  by (simp add: run_def)

lemma run_Cons [simp]: "run (e # es) w = run es (step e w)"
  by (simp add: run_def)

lemma run_append: "run (es @ es') w = run es' (run es w)"
  by (simp add: run_def)

lemma wellFormed_run: "wellFormed w \<Longrightarrow> wellFormed (run es w)"
  by (induction es arbitrary: w) (simp_all add: wellFormed_step)

lemma wellFormed_newWorld: "wellFormed newWorld"
  by (simp add: wellFormed_def newWorld_def)


section \<open>Broadcast and subscription\<close>

lemma count_list_tagged:
  "count_list (map (\<lambda>ob. (i, Notify ob)) xs) (i, Notify ob) = count_list xs ob"
  by (induction xs) auto

lemma count_list_distinct:
  "distinct xs \<Longrightarrow> count_list xs x = (if x \<in> set xs then 1 else 0)"
  by (induction xs) auto

lemma mutate_apply:
  assumes "i < length (queries (client w))"
  shows "mutate i u [] w =
     w\<lparr>client := store i ((queries (client w) ! i)\<lparr>state := u (state (queries (client w) ! i))\<rparr>) w,
       log := log w @ map (\<lambda>ob. (i, Notify ob)) (subscribers (queries (client w) ! i))\<rparr>"
  using assms by (simp add: mutate_def setState_Nil)

lemma unsubscribeFrom_apply:
  assumes "i < length (queries (client w))"
  shows "unsubscribeFrom i ob w =
     w\<lparr>client := store i ((queries (client w) ! i)
        \<lparr>subscribers := filter (\<lambda>sub. sub \<noteq> ob) (subscribers (queries (client w) ! i))\<rparr>) w\<rparr>"
  using assms by (simp add: unsubscribeFrom_def unsubscribe_def)

lemma unsubscribeFrom_absent:
  assumes "ob \<notin> set (subscribers (queries (client w) ! i))"
  shows "unsubscribeFrom i ob w = w"
proof (cases "i < length (queries (client w))")
  case True
  have "filter (\<lambda>sub. sub \<noteq> ob) (subscribers (queries (client w) ! i)) =
        subscribers (queries (client w) ! i)"
    using assms by (auto simp: filter_id_conv)
  then show ?thesis
    using True by (simp add: unsubscribeFrom_apply store_def)
next
  case False
  then show ?thesis by (simp add: unsubscribeFrom_def)
qed

lemma unsubscribeFrom_removes:
  "i < length (queries (client w)) \<Longrightarrow>
   ob \<notin> set (subscribers (queries (client (unsubscribeFrom i ob w)) ! i))"
  by (simp add: unsubscribeFrom_apply)

lemma length_unsubscribeFrom [simp]:
  "length (queries (client (unsubscribeFrom i ob w))) = length (queries (client w))"
  by (simp add: unsubscribeFrom_def)

text \<open>Unfolding these evaluates a run on concrete events.\<close>

lemmas run_defs =
  newWorld_def getQuery_def createQuery_def JSON_stringify_def QuoteJSONString_def
  escapeChar_def subscribeTo_def subsribe_def unsubscribeFrom_def unsubscribe_def store_def
  mutate_def setState_def fetch_def resume_def afterAwait_def tryCatchFinally_def
  observerSubscribe_def notified_def Let_def

section \<open>The registry: \<^verbatim>\<open>getQuery\<close>\<close>

text \<open>
  Claim C7. \<^verbatim>\<open>getQuery\<close> on a key that cannot be serialized, because the traversal
  meets a cycle or a BigInt, throws the serializer's \<open>TypeError\<close> (the hashing failure,
  which the specification names UnhashableKey). It is thrown by the first statement of
  \<^verbatim>\<open>getQuery\<close>, so the client is as before: no query was created or stored. On every
  other key \<^verbatim>\<open>getQuery\<close> returns the reference of a query of the client: there is
  no other way for it to fail.
\<close>

theorem getQuery_failure:
  "(cyclicElems (queryKey options) \<or> hasBigIntElems (queryKey options) \<longrightarrow>
      getQuery c options = (Inl TypeError, c)) \<and>
   (\<not> cyclicElems (queryKey options) \<and> \<not> hasBigIntElems (queryKey options) \<longrightarrow>
      (\<exists>r. fst (getQuery c options) = Inr r \<and>
           r < length (queries (snd (getQuery c options)))))"
proof (cases "JSON_stringify (queryKey options)")
  case (Inl e)
  then show ?thesis
    using JSON_stringify_fails [of "queryKey options" e] error_unique [of e TypeError]
    by (simp add: getQuery_Inl)
next
  case (Inr h)
  have ok: "\<not> (cyclicElems (queryKey options) \<or> hasBigIntElems (queryKey options))"
    using JSON_stringify_fails [of "queryKey options" TypeError] Inr by simp
  show ?thesis
  proof (cases "findRef (\<lambda>d. queryHash d = h) (queries c)")
    case None
    with ok Inr show ?thesis by (simp add: getQuery_Inr)
  next
    case (Some r)
    with ok Inr findRef_Some [OF Some] show ?thesis by (simp add: getQuery_Inr)
  qed
qed

theorem getQuery_failure_witness:
  "cyclicElems [JString ''a'', JObject [(''self'', JAncestor 1)]] \<and>
   getQuery \<lparr>queries = []\<rparr> \<lparr>queryKey = [JString ''a'', JObject [(''self'', JAncestor 1)]], queryFn = 0 :: nat\<rparr>
     = (Inl TypeError, \<lparr>queries = [] :: (nat, nat) Query list\<rparr>) \<and>
   \<not> cyclicElems [JString ''a'', JNumber 1] \<and> \<not> hasBigIntElems [JString ''a'', JNumber 1] \<and>
   fst (getQuery (\<lparr>queries = []\<rparr> :: (nat, nat) QueryClient)
          \<lparr>queryKey = [JString ''a'', JNumber 1], queryFn = 0 :: nat\<rparr>) = Inr 0"
  using getQuery_failure [of "\<lparr>queryKey = [JString ''a'', JObject [(''self'', JAncestor 1)]], queryFn = 0 :: nat\<rparr>"
          "\<lparr>queries = [] :: (nat, nat) Query list\<rparr>"]
        getQuery_failure [of "\<lparr>queryKey = [JString ''a'', JNumber 1], queryFn = 0 :: nat\<rparr>"
          "\<lparr>queries = [] :: (nat, nat) Query list\<rparr>"]
  by (simp add: getQuery_def JSON_stringify_def createQuery_def)

text \<open>
  Claim C10. There are different keys with one query between them. \<^verbatim>\<open>[null]\<close> and
  \<^verbatim>\<open>[undefined]\<close> both serialize to \<^verbatim>\<open>[null]\<close>, and two keys that differ in a function
  member only serialize alike as well: in both cases the second \<^verbatim>\<open>getQuery\<close> returns
  the query made for the first key and leaves the client as it was, so that the only query
  function stored is the first one, \<open>f1\<close>; \<open>f2\<close> is dropped.
\<close>

theorem distinct_keys_share_entry:
  "[JNull] \<noteq> [JUndefined] \<and>
   getQuery (\<lparr>queries = []\<rparr> :: ('f, 'v) QueryClient) \<lparr>queryKey = [JNull], queryFn = f1\<rparr> =
     (Inr 0, \<lparr>queries = [\<lparr>queryKey = [JNull], queryFn = f1, queryHash = ''[null]'',
         promise = None,
         state = \<lparr>status = Loading, isFetching = True, data = None, error = None\<rparr>,
         subscribers = []\<rparr>]\<rparr>) \<and>
   getQuery (snd (getQuery (\<lparr>queries = []\<rparr> :: ('f, 'v) QueryClient)
                    \<lparr>queryKey = [JNull], queryFn = f1\<rparr>))
            \<lparr>queryKey = [JUndefined], queryFn = f2\<rparr> =
     (Inr 0, snd (getQuery (\<lparr>queries = []\<rparr> :: ('f, 'v) QueryClient)
                    \<lparr>queryKey = [JNull], queryFn = f1\<rparr>)) \<and>
   [JString ''k'', JFunction 1] \<noteq> [JString ''k'', JFunction 2] \<and>
   getQuery (snd (getQuery (\<lparr>queries = []\<rparr> :: ('f, 'v) QueryClient)
                    \<lparr>queryKey = [JString ''k'', JFunction 1], queryFn = f1\<rparr>))
            \<lparr>queryKey = [JString ''k'', JFunction 2], queryFn = f2\<rparr> =
     (Inr 0, \<lparr>queries = [\<lparr>queryKey = [JString ''k'', JFunction 1], queryFn = f1,
         queryHash = CHR ''['' # CHR 0x22 # CHR ''k'' # CHR 0x22 # '',null]'',
         promise = None,
         state = \<lparr>status = Loading, isFetching = True, data = None, error = None\<rparr>,
         subscribers = []\<rparr>]\<rparr>)"
  by (simp add: getQuery_def JSON_stringify_def createQuery_def QuoteJSONString_def escapeChar_def)

section \<open>Subscribers\<close>

text \<open>
  Claim C9. Calling the closure returned by \<^verbatim>\<open>subsribe\<close> twice leaves the world as
  calling it once does; where the observer is not in the list of subscribers the call
  changes nothing; and a later \<^verbatim>\<open>setState\<close> therefore behaves the same after two
  calls as after one.
\<close>

theorem unsubscribe_idempotent:
  "unsubscribeFrom i ob (unsubscribeFrom i ob w) = unsubscribeFrom i ob w \<and>
   (ob \<notin> set (subscribers (queries (client w) ! i)) \<longrightarrow> unsubscribeFrom i ob w = w) \<and>
   mutate i u [] (unsubscribeFrom i ob (unsubscribeFrom i ob w)) =
     mutate i u [] (unsubscribeFrom i ob w)"
proof -
  have twice: "unsubscribeFrom i ob (unsubscribeFrom i ob w) = unsubscribeFrom i ob w"
  proof (cases "i < length (queries (client w))")
    case True
    then show ?thesis
      by (intro unsubscribeFrom_absent unsubscribeFrom_removes)
  next
    case False
    then show ?thesis by (simp add: unsubscribeFrom_def)
  qed
  then show ?thesis
    by (simp add: unsubscribeFrom_absent)
qed

theorem unsubscribe_idempotent_witness:
  "8 \<notin> set (subscribers (queries (client
       (run [GetQuery \<lparr>queryKey = [JString ''a''], queryFn = 0 :: nat\<rparr>, Subscribe 0 7,
             Subscribe 0 8, Unsubscribe 0 8] (newWorld :: (nat, nat) world))) ! 0)) \<and>
   unsubscribeFrom 0 8
       (run [GetQuery \<lparr>queryKey = [JString ''a''], queryFn = 0 :: nat\<rparr>, Subscribe 0 7,
             Subscribe 0 8, Unsubscribe 0 8] (newWorld :: (nat, nat) world)) =
       run [GetQuery \<lparr>queryKey = [JString ''a''], queryFn = 0 :: nat\<rparr>, Subscribe 0 7,
             Subscribe 0 8, Unsubscribe 0 8] (newWorld :: (nat, nat) world) \<and>
   subscribers (queries (client
       (run [GetQuery \<lparr>queryKey = [JString ''a''], queryFn = 0 :: nat\<rparr>, Subscribe 0 7,
             Subscribe 0 8, Unsubscribe 0 8, Unsubscribe 0 8] (newWorld :: (nat, nat) world))) ! 0)
     = [7]"
  using unsubscribe_idempotent [of 0 8
      "run [GetQuery \<lparr>queryKey = [JString ''a''], queryFn = 0 :: nat\<rparr>, Subscribe 0 7,
             Subscribe 0 8, Unsubscribe 0 8] (newWorld :: (nat, nat) world)" id]
  by (simp add: run_defs)

text \<open>
  Claim C4, as the code has it. \<^verbatim>\<open>setState\<close> on query \<open>i\<close> replaces the state by
  the updater's result and, within the call, notifies the subscribers in the order of the
  list, once for each entry of the list. An observer is thus notified as many times as it
  is registered at that moment: exactly once when the list has no duplicates, and not at
  all after it has unsubscribed. The observers return at once (the list of callbacks is
  empty), so that the log shows the notifications of this call alone.
\<close>

theorem mutate_broadcast:
  assumes "i < length (queries (client w))"
  shows "state (queries (client (mutate i u [] w)) ! i) = u (state (queries (client w) ! i)) \<and>
         log (mutate i u [] w) =
           log w @ map (\<lambda>ob. (i, Notify ob)) (subscribers (queries (client w) ! i)) \<and>
         (\<forall>ob. count_list (notified w (mutate i u [] w)) (i, Notify ob) =
                count_list (subscribers (queries (client w) ! i)) ob) \<and>
         (\<forall>ob. distinct (subscribers (queries (client w) ! i)) \<and>
                ob \<in> set (subscribers (queries (client w) ! i)) \<longrightarrow>
                count_list (notified w (mutate i u [] w)) (i, Notify ob) = 1) \<and>
         (\<forall>ob. count_list (notified (unsubscribeFrom i ob w)
                   (mutate i u [] (unsubscribeFrom i ob w))) (i, Notify ob) = 0)"
proof -
  have n: "notified w' (mutate i u [] w') =
           map (\<lambda>ob. (i, Notify ob)) (subscribers (queries (client w') ! i))"
    if "i < length (queries (client w'))" for w' :: "('a, 'b) world"
    using that by (simp add: notified_def mutate_apply)
  have a: "state (queries (client (mutate i u [] w)) ! i) = u (state (queries (client w) ! i))"
    using assms by (simp add: mutate_apply)
  have b: "log (mutate i u [] w) =
           log w @ map (\<lambda>ob. (i, Notify ob)) (subscribers (queries (client w) ! i))"
    using assms by (simp add: mutate_apply)
  have c: "count_list (notified w (mutate i u [] w)) (i, Notify ob) =
           count_list (subscribers (queries (client w) ! i)) ob" for ob
    by (simp add: n [OF assms] count_list_tagged)
  have d: "count_list (notified w (mutate i u [] w)) (i, Notify ob) = 1"
    if "distinct (subscribers (queries (client w) ! i))"
       "ob \<in> set (subscribers (queries (client w) ! i))" for ob
    using that by (simp add: c count_list_distinct)
  have e: "count_list (notified (unsubscribeFrom i ob w)
             (mutate i u [] (unsubscribeFrom i ob w))) (i, Notify ob) = 0" for ob
    using assms unsubscribeFrom_removes [OF assms, of ob]
    by (simp add: n count_list_tagged)
  from a b c d e show ?thesis by blast
qed

theorem mutate_broadcast_witness:
  "0 < length (queries (client
       (run [GetQuery \<lparr>queryKey = [JString ''a''], queryFn = 0 :: nat\<rparr>, Subscribe 0 7,
             Subscribe 0 8, Subscribe 0 9, Unsubscribe 0 8] (newWorld :: (nat, nat) world)))) \<and>
   distinct (subscribers (queries (client
       (run [GetQuery \<lparr>queryKey = [JString ''a''], queryFn = 0 :: nat\<rparr>, Subscribe 0 7,
             Subscribe 0 8, Subscribe 0 9, Unsubscribe 0 8] (newWorld :: (nat, nat) world))) ! 0)) \<and>
   7 \<in> set (subscribers (queries (client
       (run [GetQuery \<lparr>queryKey = [JString ''a''], queryFn = 0 :: nat\<rparr>, Subscribe 0 7,
             Subscribe 0 8, Subscribe 0 9, Unsubscribe 0 8] (newWorld :: (nat, nat) world))) ! 0)) \<and>
   log (mutate 0 (\<lambda>old. old\<lparr>data := Some 5\<rparr>) []
       (run [GetQuery \<lparr>queryKey = [JString ''a''], queryFn = 0 :: nat\<rparr>, Subscribe 0 7,
             Subscribe 0 8, Subscribe 0 9, Unsubscribe 0 8] (newWorld :: (nat, nat) world))) =
     [(0, Notify 7), (0, Notify 9)] \<and>
   count_list (notified
       (run [GetQuery \<lparr>queryKey = [JString ''a''], queryFn = 0 :: nat\<rparr>, Subscribe 0 7,
             Subscribe 0 8, Subscribe 0 9, Unsubscribe 0 8] (newWorld :: (nat, nat) world))
       (mutate 0 (\<lambda>old. old\<lparr>data := Some 5\<rparr>) []
       (run [GetQuery \<lparr>queryKey = [JString ''a''], queryFn = 0 :: nat\<rparr>, Subscribe 0 7,
             Subscribe 0 8, Subscribe 0 9, Unsubscribe 0 8] (newWorld :: (nat, nat) world))))
     (0, Notify 7) = 1"
  using mutate_broadcast [of 0
      "run [GetQuery \<lparr>queryKey = [JString ''a''], queryFn = 0 :: nat\<rparr>, Subscribe 0 7,
             Subscribe 0 8, Subscribe 0 9, Unsubscribe 0 8] (newWorld :: (nat, nat) world)"
      "\<lambda>old. old\<lparr>data := Some 5\<rparr>"]
  by (simp add: run_defs)

text \<open>
  Claim C4 as stated fails: \<^verbatim>\<open>subsribe\<close> pushes without looking for the observer in
  the list, so observer 7, attached twice before the call, is notified twice by one
  \<^verbatim>\<open>setState\<close>.
\<close>

theorem mutate_notifies_twice_counterexample:
  "count_list (notified
      (run [GetQuery \<lparr>queryKey = [JString ''a''], queryFn = 0 :: nat\<rparr>, Subscribe 0 7,
            Subscribe 0 7] (newWorld :: (nat, nat) world))
      (mutate 0 id []
        (run [GetQuery \<lparr>queryKey = [JString ''a''], queryFn = 0 :: nat\<rparr>, Subscribe 0 7,
              Subscribe 0 7] (newWorld :: (nat, nat) world))))
     (0, Notify 7) = 2"
  by (simp add: run_defs)

section \<open>The outcome of a fetch\<close>

text \<open>
  Claim C8. When a fetch fails, whether the awaited promise is rejected or the query
  function throws when called, the query ends with status \<open>Error\<close> and the failure
  value in \<open>error\<close>, and its \<open>data\<close> field is what it was before: the data of an
  earlier successful fetch stays. The observers return at once.
\<close>

theorem failed_fetch_keeps_data:
  assumes "i < length (queries (client w))"
  shows "(map_of (awaiting w) p = Some i \<longrightarrow>
            status (state (queries (client (resume p (Rejected e) [] w)) ! i)) = Error \<and>
            error (state (queries (client (resume p (Rejected e) [] w)) ! i)) = e \<and>
            data (state (queries (client (resume p (Rejected e) [] w)) ! i)) =
              data (state (queries (client w) ! i))) \<and>
         (promise (queries (client w) ! i) = None \<longrightarrow>
            status (state (queries (client (snd (fetch i (Throws e) [] w))) ! i)) = Error \<and>
            error (state (queries (client (snd (fetch i (Throws e) [] w))) ! i)) = e \<and>
            data (state (queries (client (snd (fetch i (Throws e) [] w))) ! i)) =
              data (state (queries (client w) ! i)))"
  using assms by (simp add: resume_Rejected fetch_Throws)

theorem failed_fetch_keeps_data_witness:
  "0 < length (queries (client
       (run [GetQuery \<lparr>queryKey = [JString ''a''], queryFn = 0 :: nat\<rparr>, Fetch 0 Returns, Settle 0 (Fulfilled (Some 11)), Fetch 0 Returns]
          (newWorld :: (nat, nat) world)))) \<and>
   map_of (awaiting
       (run [GetQuery \<lparr>queryKey = [JString ''a''], queryFn = 0 :: nat\<rparr>, Fetch 0 Returns, Settle 0 (Fulfilled (Some 11)), Fetch 0 Returns]
          (newWorld :: (nat, nat) world))) 1 = Some 0 \<and>
   state (queries (client
       (run [GetQuery \<lparr>queryKey = [JString ''a''], queryFn = 0 :: nat\<rparr>, Fetch 0 Returns, Settle 0 (Fulfilled (Some 11)), Fetch 0 Returns]
          (newWorld :: (nat, nat) world))) ! 0) =
     \<lparr>status = Success, isFetching = True, data = Some 11, error = None\<rparr> \<and>
   state (queries (client (resume 1 (Rejected (Some 22)) []
       (run [GetQuery \<lparr>queryKey = [JString ''a''], queryFn = 0 :: nat\<rparr>, Fetch 0 Returns, Settle 0 (Fulfilled (Some 11)), Fetch 0 Returns]
          (newWorld :: (nat, nat) world)))) ! 0) =
     \<lparr>status = Error, isFetching = False, data = Some 11, error = Some 22\<rparr> \<and>
   0 < length (queries (client
       (run [GetQuery \<lparr>queryKey = [JString ''a''], queryFn = 0 :: nat\<rparr>, Fetch 0 Returns, Settle 0 (Fulfilled (Some 11))]
          (newWorld :: (nat, nat) world)))) \<and>
   promise (queries (client
       (run [GetQuery \<lparr>queryKey = [JString ''a''], queryFn = 0 :: nat\<rparr>, Fetch 0 Returns, Settle 0 (Fulfilled (Some 11))]
          (newWorld :: (nat, nat) world))) ! 0) = None \<and>
   state (queries (client (snd (fetch 0 (Throws (Some 22)) []
       (run [GetQuery \<lparr>queryKey = [JString ''a''], queryFn = 0 :: nat\<rparr>, Fetch 0 Returns, Settle 0 (Fulfilled (Some 11))]
          (newWorld :: (nat, nat) world))))) ! 0) =
     \<lparr>status = Error, isFetching = False, data = Some 11, error = Some 22\<rparr>"
  using failed_fetch_keeps_data [of 0
      "run [GetQuery \<lparr>queryKey = [JString ''a''], queryFn = 0 :: nat\<rparr>, Fetch 0 Returns, Settle 0 (Fulfilled (Some 11)), Fetch 0 Returns]
          (newWorld :: (nat, nat) world)" 1 "Some 22"]
    failed_fetch_keeps_data [of 0
      "run [GetQuery \<lparr>queryKey = [JString ''a''], queryFn = 0 :: nat\<rparr>, Fetch 0 Returns, Settle 0 (Fulfilled (Some 11))]
          (newWorld :: (nat, nat) world)" 1 "Some 22"]
  by (simp add: run_defs)

section \<open>The state of a query in every reachable world\<close>

text \<open>Whatever the observers do when notified, the \<^verbatim>\<open>try\<close> statement ends normally.\<close>

lemma afterAwait_Normal: "snd (afterAwait i res c) = Normal"
  by (cases c; cases res)
     (simp_all add: afterAwait_def tryCatchFinally_def split: prod.splits)


















section \<open>Completion of a fetch\<close>

text \<open>
  When a suspended block is resumed, the query ends with a status other than
  \<open>Loading\<close>, not fetching, and with its \<^verbatim>\<open>promise\<close> field cleared.
\<close>

lemma resume_completes:
  assumes "map_of (awaiting w) p = Some i" "i < length (queries (client w))"
  shows "status (state (queries (client (resume p res [] w)) ! i)) \<noteq> Loading \<and>
         \<not> isFetching (state (queries (client (resume p res [] w)) ! i)) \<and>
         promise (queries (client (resume p res [] w)) ! i) = None"
  using assms by (cases res) (simp_all add: resume_Fulfilled resume_Rejected)

text \<open>
  Claim C5 at a query function that throws when it is called. The block then runs to its
  end inside the call \<^verbatim>\<open>(async () => {...})()\<close>: its \<^verbatim>\<open>finally\<close> clause sets
  \<^verbatim>\<open>query.promise = null\<close>, and after that the assignment
  \<^verbatim>\<open>query.promise = ...\<close> stores the promise of the finished block. The fetch has
  completed with status \<open>Error\<close> and \<open>isFetching\<close> false, nothing is in flight, and
  the \<^verbatim>\<open>promise\<close> field is not cleared; a later \<^verbatim>\<open>fetch\<close> finds it set and does
  nothing. No observer is involved.
\<close>

theorem throwing_queryFn_leaves_promise:
  "fst (fetch 0 (Throws (Some 22)) []
       (run [GetQuery \<lparr>queryKey = [JString ''a''], queryFn = 0 :: nat\<rparr>]
          (newWorld :: (nat, nat) world))) = Some 0 \<and>
   state (queries (client
       (run [GetQuery \<lparr>queryKey = [JString ''a''], queryFn = 0 :: nat\<rparr>, Fetch 0 (Throws (Some 22))]
          (newWorld :: (nat, nat) world))) ! 0) =
     \<lparr>status = Error, isFetching = False, data = None, error = Some 22\<rparr> \<and>
   awaiting (run [GetQuery \<lparr>queryKey = [JString ''a''], queryFn = 0 :: nat\<rparr>, Fetch 0 (Throws (Some 22))]
          (newWorld :: (nat, nat) world)) = [] \<and>
   settled (run [GetQuery \<lparr>queryKey = [JString ''a''], queryFn = 0 :: nat\<rparr>, Fetch 0 (Throws (Some 22))]
          (newWorld :: (nat, nat) world)) = [(0, Normal)] \<and>
   promise (queries (client
       (run [GetQuery \<lparr>queryKey = [JString ''a''], queryFn = 0 :: nat\<rparr>, Fetch 0 (Throws (Some 22))]
          (newWorld :: (nat, nat) world))) ! 0) = Some 0 \<and>
   run [GetQuery \<lparr>queryKey = [JString ''a''], queryFn = 0 :: nat\<rparr>, Fetch 0 (Throws (Some 22)),
        Fetch 0 Returns] (newWorld :: (nat, nat) world) =
   run [GetQuery \<lparr>queryKey = [JString ''a''], queryFn = 0 :: nat\<rparr>, Fetch 0 (Throws (Some 22))]
        (newWorld :: (nat, nat) world)"
  by (simp add: run_defs)

section \<open>Failures of the query function\<close>

lemma noRejection_fetch:
  assumes "noRejection w"
  shows "noRejection (snd (fetch i r [] w))"
proof (cases "i < length (queries (client w))")
  case False
  with assms show ?thesis by (simp add: fetch_def)
next
  case len: True
  show ?thesis
  proof (cases "promise (queries (client w) ! i)")
    case (Some p)
    with len assms show ?thesis by (simp add: fetch_busy)
  next
    case None
    show ?thesis
    proof (cases r)
      case Returns
      with assms show ?thesis
        by (simp add: fetch_Returns [OF len None] noRejection_def)
    next
      case (Throws x)
      with assms show ?thesis
        by (simp add: fetch_Throws [OF len None] noRejection_def)
    qed
  qed
qed

lemma noRejection_resume:
  assumes "noRejection w"
  shows "noRejection (resume p res [] w)"
proof (cases "map_of (awaiting w) p")
  case None
  with assms show ?thesis by (simp add: resume_idle)
next
  case (Some i)
  show ?thesis
  proof (cases "i < length (queries (client w))")
    case True
    with assms show ?thesis
      by (cases res)
         (simp_all add: resume_Fulfilled [OF Some] resume_Rejected [OF Some] noRejection_def)
  next
    case False
    with assms Some show ?thesis by (simp add: resume_def)
  qed
qed

lemma noRejection_subscribeTo: "noRejection w \<Longrightarrow> noRejection (subscribeTo i ob w)"
  by (simp add: noRejection_def subscribeTo_def)

lemma noRejection_step: "noRejection w \<Longrightarrow> noRejection (step e w)"
proof (cases e)
  case (Fetch i r)
  assume "noRejection w"
  then show ?thesis by (simp add: Fetch noRejection_fetch)
next
  case (Settle p res)
  assume "noRejection w"
  then show ?thesis by (simp add: Settle noRejection_resume)
next
  case (Attach i ob r)
  assume "noRejection w"
  then show ?thesis
    by (simp add: Attach observerSubscribe_def noRejection_fetch noRejection_subscribeTo)
qed (simp_all add: noRejection_def subscribeTo_def unsubscribeFrom_def)

lemma noRejection_run: "noRejection w \<Longrightarrow> noRejection (run es w)"
  by (induction es arbitrary: w) (simp_all add: noRejection_step)

lemma noRejection_newWorld: "noRejection newWorld"
  by (simp add: noRejection_def newWorld_def)

text \<open>
  Claim C6. In every reachable world each promise that \<^verbatim>\<open>fetch\<close> returned and whose
  block has finished is fulfilled, none is rejected. When the promise awaited by a block is
  rejected with \<open>e\<close>, or the query function throws \<open>e\<close> when called, the
  \<^verbatim>\<open>catch\<close> clause stores it: the query has status \<open>Error\<close> and \<open>error\<close> is
  \<open>e\<close>, and the block's promise is fulfilled. The observers return at once.
\<close>

theorem fetch_failure_contained:
  "(\<forall>p r. (p, r) \<in> set (settled (run es newWorld)) \<longrightarrow> r = Normal) \<and>
   (\<forall>p i e. map_of (awaiting (run es newWorld)) p = Some i \<longrightarrow>
      status (state (queries (client (resume p (Rejected e) [] (run es newWorld))) ! i)) = Error \<and>
      error (state (queries (client (resume p (Rejected e) [] (run es newWorld))) ! i)) = e \<and>
      (p, Normal) \<in> set (settled (resume p (Rejected e) [] (run es newWorld)))) \<and>
   (\<forall>i e. i < length (queries (client (run es newWorld))) \<and>
          promise (queries (client (run es newWorld)) ! i) = None \<longrightarrow>
      fst (fetch i (Throws e) [] (run es newWorld)) = Some (nextPromise (run es newWorld)) \<and>
      status (state (queries (client (snd (fetch i (Throws e) [] (run es newWorld)))) ! i)) = Error \<and>
      error (state (queries (client (snd (fetch i (Throws e) [] (run es newWorld)))) ! i)) = e \<and>
      (nextPromise (run es newWorld), Normal) \<in>
         set (settled (snd (fetch i (Throws e) [] (run es newWorld)))))"
proof -
  have wf: "wellFormed (run es newWorld)"
    by (intro wellFormed_run wellFormed_newWorld)
  have "noRejection (run es newWorld)"
    by (intro noRejection_run noRejection_newWorld)
  then have a: "\<forall>p r. (p, r) \<in> set (settled (run es newWorld)) \<longrightarrow> r = Normal"
    unfolding noRejection_def by blast
  have b: "status (state (queries (client (resume p (Rejected e) [] (run es newWorld))) ! i)) = Error \<and>
      error (state (queries (client (resume p (Rejected e) [] (run es newWorld))) ! i)) = e \<and>
      (p, Normal) \<in> set (settled (resume p (Rejected e) [] (run es newWorld)))"
    if m: "map_of (awaiting (run es newWorld)) p = Some i" for p i e
  proof -
    have "(p, i) \<in> set (awaiting (run es newWorld))"
      using m wf by (simp add: map_of_awaiting)
    then have "i < length (queries (client (run es newWorld)))"
      by (rule wellFormedD(2) [OF wf])
    then show ?thesis
      by (simp add: resume_Rejected [OF m])
  qed
  have c: "fst (fetch i (Throws e) [] (run es newWorld)) = Some (nextPromise (run es newWorld)) \<and>
      status (state (queries (client (snd (fetch i (Throws e) [] (run es newWorld)))) ! i)) = Error \<and>
      error (state (queries (client (snd (fetch i (Throws e) [] (run es newWorld)))) ! i)) = e \<and>
      (nextPromise (run es newWorld), Normal) \<in>
         set (settled (snd (fetch i (Throws e) [] (run es newWorld))))"
    if "i < length (queries (client (run es newWorld)))"
       "promise (queries (client (run es newWorld)) ! i) = None" for i e
    using that by (simp add: fetch_Throws)
  from a b c show ?thesis by blast
qed

theorem fetch_failure_contained_witness:
  "map_of (awaiting
       (run [GetQuery \<lparr>queryKey = [JString ''a''], queryFn = 0 :: nat\<rparr>, Fetch 0 Returns]
          (newWorld :: (nat, nat) world))) 0 = Some 0 \<and>
   state (queries (client
       (run [GetQuery \<lparr>queryKey = [JString ''a''], queryFn = 0 :: nat\<rparr>, Fetch 0 Returns,
             Settle 0 (Rejected (Some 22))] (newWorld :: (nat, nat) world))) ! 0) =
     \<lparr>status = Error, isFetching = False, data = None, error = Some 22\<rparr> \<and>
   settled (run [GetQuery \<lparr>queryKey = [JString ''a''], queryFn = 0 :: nat\<rparr>, Fetch 0 Returns,
             Settle 0 (Rejected (Some 22))] (newWorld :: (nat, nat) world)) = [(0, Normal)] \<and>
   0 < length (queries (client
       (run [GetQuery \<lparr>queryKey = [JString ''a''], queryFn = 0 :: nat\<rparr>]
          (newWorld :: (nat, nat) world)))) \<and>
   promise (queries (client
       (run [GetQuery \<lparr>queryKey = [JString ''a''], queryFn = 0 :: nat\<rparr>]
          (newWorld :: (nat, nat) world))) ! 0) = None \<and>
   settled (snd (fetch 0 (Throws (Some 22)) []
       (run [GetQuery \<lparr>queryKey = [JString ''a''], queryFn = 0 :: nat\<rparr>]
          (newWorld :: (nat, nat) world)))) = [(0, Normal)]"
  using fetch_failure_contained [of
      "[GetQuery \<lparr>queryKey = [JString ''a''], queryFn = 0 :: nat\<rparr>, Fetch 0 Returns] :: (nat, nat) event list"]
    fetch_failure_contained [of
      "[GetQuery \<lparr>queryKey = [JString ''a''], queryFn = 0 :: nat\<rparr>] :: (nat, nat) event list"]
  by (simp add: run_defs)

section \<open>Deduplication of fetches\<close>

lemma invocations_append [simp]:
  "invocations i (l @ l') = invocations i l + invocations i l'"
  by (simp add: invocations_def)

lemma invocations_other: "j \<noteq> i \<Longrightarrow> invocations i ((j, e) # l) = invocations i l"
  by (simp add: invocations_def)

lemma invocations_Nil [simp]: "invocations i [] = 0"
  by (simp add: invocations_def)

lemma invocations_Notify: "invocations i (map (Pair j \<circ> Notify) obs) = 0"
  by (induction obs) (simp_all add: invocations_def)

lemma invocations_Invoke: "invocations i [(i, Invoke f)] = 1"
  by (simp add: invocations_def)

lemma busy_getQuery:
  assumes "busy i p n w"
  shows "busy i p n (w\<lparr>client := snd (getQuery (client w) options)\<rparr>)"
proof -
  obtain qs where "queries (snd (getQuery (client w) options)) = queries (client w) @ qs"
    using getQuery_queries by blast
  with assms show ?thesis
    by (simp add: busy_def nth_append)
qed

lemma busy_fetch:
  assumes "busy i p n w"
  shows "busy i p n (snd (fetch j r [] w))"
proof (cases "j = i")
  case True
  with assms show ?thesis by (simp add: busy_def fetch_busy)
next
  case ne: False
  show ?thesis
  proof (cases "j < length (queries (client w))")
    case False
    with assms show ?thesis by (simp add: fetch_def)
  next
    case len: True
    show ?thesis
    proof (cases "promise (queries (client w) ! j)")
      case (Some q)
      with len assms show ?thesis by (simp add: fetch_busy)
    next
      case None
      show ?thesis
      proof (cases r)
        case Returns
        with assms ne show ?thesis
          by (simp add: fetch_Returns [OF len None] busy_def invocations_other
                invocations_Notify)
      next
        case (Throws x)
        with assms ne show ?thesis
          by (simp add: fetch_Throws [OF len None] busy_def invocations_other
                invocations_Notify)
      qed
    qed
  qed
qed

lemma busy_resume:
  assumes "busy i p n w" "wellFormed w" "p' \<noteq> p"
  shows "busy i p n (resume p' res [] w)"
proof (cases "map_of (awaiting w) p'")
  case None
  with assms show ?thesis by (simp add: resume_idle)
next
  case (Some j)
  then have mem: "(p', j) \<in> set (awaiting w)"
    using assms(2) by (simp add: map_of_awaiting)
  note facts = wellFormedD [OF assms(2) mem]
  have ne: "j \<noteq> i"
    using facts(1) assms(1,3) by (auto simp: busy_def)
  show ?thesis
    using assms(1) ne
    by (cases res)
       (simp_all add: resume_Fulfilled [OF Some facts(2)] resume_Rejected [OF Some facts(2)]
          busy_def invocations_Notify)
qed

lemma busy_subscribeTo: "busy i p n w \<Longrightarrow> busy i p n (subscribeTo j ob w)"
  by (cases "j = i") (simp_all add: busy_def subscribeTo_def subsribe_def)

lemma busy_unsubscribeFrom: "busy i p n w \<Longrightarrow> busy i p n (unsubscribeFrom j ob w)"
  by (cases "j = i") (simp_all add: busy_def unsubscribeFrom_def unsubscribe_def)

lemma busy_step:
  assumes "busy i p n w" "wellFormed w" "\<forall>res. e \<noteq> Settle p res"
  shows "busy i p n (step e w)"
proof (cases e)
  case (GetQuery options)
  with assms show ?thesis by (simp add: busy_getQuery)
next
  case (Fetch j r)
  with assms show ?thesis by (simp add: busy_fetch)
next
  case (Settle p' res)
  with assms have "p' \<noteq> p" by auto
  with assms Settle show ?thesis by (simp add: busy_resume)
next
  case (Subscribe j ob)
  with assms show ?thesis by (simp add: busy_subscribeTo)
next
  case (Unsubscribe j ob)
  with assms show ?thesis by (simp add: busy_unsubscribeFrom)
next
  case (Attach j ob r)
  with assms show ?thesis
    by (simp add: observerSubscribe_def busy_fetch busy_subscribeTo)
qed

lemma busy_run:
  assumes "busy i p n w" "wellFormed w" "\<forall>res. Settle p res \<notin> set es"
  shows "busy i p n (run es w)"
  using assms
proof (induction es arbitrary: w)
  case Nil
  then show ?case by simp
next
  case (Cons e es)
  have "busy i p n (step e w)"
    using Cons.prems by (intro busy_step) auto
  moreover have "wellFormed (step e w)"
    using Cons.prems by (simp add: wellFormed_step)
  ultimately show ?case
    using Cons.prems by (simp add: Cons.IH)
qed

lemma busy_after_fetch:
  assumes "i < length (queries (client w))" "promise (queries (client w) ! i) = None"
  shows "fst (fetch i r [] w) = Some (nextPromise w)"
    "busy i (nextPromise w) (Suc (invocations i (log w))) (snd (fetch i r [] w))"
  using assms
  by (cases r; simp add: fetch_Returns fetch_Throws busy_def invocations_Notify
        invocations_def)+

lemma short_list:
  assumes "distinct xs" "\<forall>x \<in> set xs. x = a"
  shows "length xs \<le> 1"
proof (cases xs)
  case Nil
  then show ?thesis by simp
next
  case (Cons x ys)
  show ?thesis
  proof (cases ys)
    case Nil
    with Cons show ?thesis by simp
  next
    case (Cons y zs)
    with \<open>xs = x # ys\<close> assms show ?thesis by auto
  qed
qed

lemma inFlight_at_most_one:
  assumes "wellFormed w"
  shows "length (inFlight i w) \<le> 1"
proof (cases "promise (queries (client w) ! i)")
  case None
  have "p \<notin> set (inFlight i w)" for p
    using wellFormedD(1) [OF assms, of p i] None by (auto simp: inFlight_def)
  then have "inFlight i w = []" by (cases "inFlight i w") auto
  then show ?thesis by simp
next
  case (Some a)
  have "distinct (inFlight i w)"
    using wellFormed_distinct [OF assms] by (simp add: inFlight_def distinct_map_filter)
  moreover have "\<forall>p \<in> set (inFlight i w). p = a"
    using wellFormedD(1) [OF assms] Some by (auto simp: inFlight_def)
  ultimately show ?thesis by (rule short_list)
qed

text \<open>
  With observers that return from \<^verbatim>\<open>notify\<close> without calling into the cache,
  \<^verbatim>\<open>fetch\<close> deduplicates. Let \<open>w\<close> be a reachable world in which query \<open>i\<close>
  has no promise stored, so that \<^verbatim>\<open>fetch\<close> starts an operation, with promise \<open>p\<close>.
  That call invokes the query function once. Whatever happens afterwards, as long as the
  block of \<open>p\<close> is not resumed (further calls of \<^verbatim>\<open>fetch\<close> on the query, from
  observers attaching or otherwise, operations on other queries, other blocks settling),
  every \<^verbatim>\<open>fetch\<close> on query \<open>i\<close> returns the same promise \<open>p\<close> and changes
  nothing, and the number of calls of the query function stays at that one. In every
  reachable world each query has at most one block in flight.
\<close>

lemma dedup_when_observers_return:
  assumes "w = run es0 newWorld"
    and "i < length (queries (client w))"
    and "promise (queries (client w) ! i) = None"
    and "\<forall>res. Settle (nextPromise w) res \<notin> set es"
  shows "fst (fetch i r [] w) = Some (nextPromise w) \<and>
         invocations i (log (snd (fetch i r [] w))) = Suc (invocations i (log w)) \<and>
         fetch i r' [] (run es (snd (fetch i r [] w))) =
           (Some (nextPromise w), run es (snd (fetch i r [] w))) \<and>
         invocations i (log (run es (snd (fetch i r [] w)))) = Suc (invocations i (log w)) \<and>
         (\<forall>j. length (inFlight j w) \<le> 1) \<and>
         (\<forall>j. length (inFlight j (run es (snd (fetch i r [] w)))) \<le> 1)"
proof -
  have wf: "wellFormed w"
    unfolding assms(1) by (intro wellFormed_run wellFormed_newWorld)
  then have wf1: "wellFormed (snd (fetch i r [] w))"
    by (rule wellFormed_fetch)
  then have wf2: "wellFormed (run es (snd (fetch i r [] w)))"
    by (rule wellFormed_run)
  note first = busy_after_fetch [OF assms(2,3), of r]
  have later: "busy i (nextPromise w) (Suc (invocations i (log w))) (run es (snd (fetch i r [] w)))"
    using first(2) wf1 assms(4) by (rule busy_run)
  have a: "invocations i (log (snd (fetch i r [] w))) = Suc (invocations i (log w))"
    using first(2) by (simp add: busy_def)
  have b: "fetch i r' [] (run es (snd (fetch i r [] w))) =
           (Some (nextPromise w), run es (snd (fetch i r [] w)))"
    using later by (simp add: busy_def fetch_busy)
  have c: "invocations i (log (run es (snd (fetch i r [] w)))) = Suc (invocations i (log w))"
    using later by (simp add: busy_def)
  have d: "\<forall>j. length (inFlight j w) \<le> 1"
    using inFlight_at_most_one [OF wf] by blast
  have e: "\<forall>j. length (inFlight j (run es (snd (fetch i r [] w)))) \<le> 1"
    using inFlight_at_most_one [OF wf2] by blast
  from first(1) a b c d e show ?thesis by blast
qed

lemma dedup_when_observers_return_example:
  "0 < length (queries (client
       (run [GetQuery \<lparr>queryKey = [JString ''a''], queryFn = 5 :: nat\<rparr>]
          (newWorld :: (nat, nat) world)))) \<and>
   promise (queries (client
       (run [GetQuery \<lparr>queryKey = [JString ''a''], queryFn = 5 :: nat\<rparr>]
          (newWorld :: (nat, nat) world))) ! 0) = None \<and>
   (\<forall>res. Settle (nextPromise
       (run [GetQuery \<lparr>queryKey = [JString ''a''], queryFn = 5 :: nat\<rparr>]
          (newWorld :: (nat, nat) world))) res \<notin>
       set [Subscribe 0 1, Fetch 0 Returns, Attach 0 2 Returns, Fetch 0 (Throws (Some 3))]) \<and>
   log (run [GetQuery \<lparr>queryKey = [JString ''a''], queryFn = 5 :: nat\<rparr>, Fetch 0 Returns,
             Subscribe 0 1, Fetch 0 Returns, Attach 0 2 Returns, Fetch 0 (Throws (Some 3))]
          (newWorld :: (nat, nat) world)) = [(0, Invoke 5)] \<and>
   invocations 0 (log
       (run [GetQuery \<lparr>queryKey = [JString ''a''], queryFn = 5 :: nat\<rparr>, Fetch 0 Returns,
             Subscribe 0 1, Fetch 0 Returns, Attach 0 2 Returns, Fetch 0 (Throws (Some 3))]
          (newWorld :: (nat, nat) world))) = 1 \<and>
   inFlight 0
       (run [GetQuery \<lparr>queryKey = [JString ''a''], queryFn = 5 :: nat\<rparr>, Fetch 0 Returns,
             Subscribe 0 1, Fetch 0 Returns, Attach 0 2 Returns, Fetch 0 (Throws (Some 3))]
          (newWorld :: (nat, nat) world)) = [0]"
  using dedup_when_observers_return [of
      "run [GetQuery \<lparr>queryKey = [JString ''a''], queryFn = 5 :: nat\<rparr>]
          (newWorld :: (nat, nat) world)"
      "[GetQuery \<lparr>queryKey = [JString ''a''], queryFn = 5 :: nat\<rparr>]" 0
      "[Subscribe 0 1, Fetch 0 Returns, Attach 0 2 Returns, Fetch 0 (Throws (Some 3))]"
      Returns Returns]
  by (simp add: run_defs invocations_def inFlight_def)

text \<open>
  Claim C1 at an observer that calls \<^verbatim>\<open>fetch\<close> from its \<^verbatim>\<open>notify\<close>, the first
  time it is notified. Observer 7 is subscribed to query 0, which has no fetch under way.
  \<^verbatim>\<open>fetch\<close> finds \<^verbatim>\<open>query.promise\<close> empty and calls the async block, whose first
  \<^verbatim>\<open>setState\<close> notifies the observer. Its \<^verbatim>\<open>fetch\<close> finds the field still empty,
  as the assignment \<^verbatim>\<open>query.promise = ...\<close> waits for the call of the block to
  return, and starts a block of its own, which calls the query function and is suspended.
  Then the first block calls the query function as well. Two calls of \<^verbatim>\<open>fetch\<close> before
  anything has resolved have called the query function twice, and two blocks are in
  flight, with promises 1 and 0; the field holds promise 0.
\<close>

theorem reentrant_fetch_invokes_twice:
  "fst (fetch 0 Returns [\<lambda>w. snd (fetch 0 Returns [] w)]
       (run [GetQuery \<lparr>queryKey = [JString ''a''], queryFn = 5 :: nat\<rparr>, Subscribe 0 7]
          (newWorld :: (nat, nat) world))) = Some 0 \<and>
   log (snd (fetch 0 Returns [\<lambda>w. snd (fetch 0 Returns [] w)]
       (run [GetQuery \<lparr>queryKey = [JString ''a''], queryFn = 5 :: nat\<rparr>, Subscribe 0 7]
          (newWorld :: (nat, nat) world)))) =
     [(0, Notify 7), (0, Notify 7), (0, Invoke 5), (0, Invoke 5)] \<and>
   invocations 0 (log (snd (fetch 0 Returns [\<lambda>w. snd (fetch 0 Returns [] w)]
       (run [GetQuery \<lparr>queryKey = [JString ''a''], queryFn = 5 :: nat\<rparr>, Subscribe 0 7]
          (newWorld :: (nat, nat) world))))) = 2 \<and>
   inFlight 0 (snd (fetch 0 Returns [\<lambda>w. snd (fetch 0 Returns [] w)]
       (run [GetQuery \<lparr>queryKey = [JString ''a''], queryFn = 5 :: nat\<rparr>, Subscribe 0 7]
          (newWorld :: (nat, nat) world)))) = [1, 0] \<and>
   promise (queries (client (snd (fetch 0 Returns [\<lambda>w. snd (fetch 0 Returns [] w)]
       (run [GetQuery \<lparr>queryKey = [JString ''a''], queryFn = 5 :: nat\<rparr>, Subscribe 0 7]
          (newWorld :: (nat, nat) world))))) ! 0) = Some 0"
  by (simp add: run_defs invocations_def inFlight_def)

text \<open>
  The second block has further consequences. Once the first block has finished and
  cleared the field, the second is in flight with the field empty. If its awaited promise
  is then rejected and the observer, notified of the error, calls \<^verbatim>\<open>fetch\<close>, a
  third block starts and clears \<open>error\<close>, after which the \<^verbatim>\<open>finally\<close> clause of
  the second sets \<open>isFetching\<close> to false: the query has status \<open>Error\<close>, is not
  fetching and has no error, although every value delivered was defined. The invariants
  of the reachable worlds are about observers that return.
\<close>

lemma reentrant_fetch_state:
  "state (queries (client
     (resume 1 (Rejected (Some 22)) [\<lambda>w. snd (fetch 0 Returns [] w)]
       (resume 0 (Fulfilled (Some 11)) []
         (snd (fetch 0 Returns [\<lambda>w. snd (fetch 0 Returns [] w)]
           (run [GetQuery \<lparr>queryKey = [JString ''a''], queryFn = 5 :: nat\<rparr>, Subscribe 0 7]
              (newWorld :: (nat, nat) world))))))) ! 0) =
     \<lparr>status = Error, isFetching = False, data = Some 11, error = None\<rparr>"
  by (simp add: run_defs)

section \<open>Which query functions are called\<close>


lemma stored_fields [simp]:
  "stored f (w\<lparr>awaiting := a\<rparr>) = stored f w"
  "stored f (w\<lparr>settled := s\<rparr>) = stored f w"
  "stored f (w\<lparr>nextPromise := n\<rparr>) = stored f w"
  "stored f (w\<lparr>log := l\<rparr>) = stored f w"
  by (simp_all add: stored_def)

lemma invoked_fields [simp]:
  "invoked f (w\<lparr>awaiting := a\<rparr>) = invoked f w"
  "invoked f (w\<lparr>settled := s\<rparr>) = invoked f w"
  "invoked f (w\<lparr>nextPromise := n\<rparr>) = invoked f w"
  "invoked f (w\<lparr>client := c\<rparr>) = invoked f w"
  by (simp_all add: invoked_def)










end
